theory Spec2Isabelle
  imports Complex_Main "HOL-Library.Sublist"
begin

section \<open>Strings\<close>

text \<open>
  A Python \<open>str\<close> is modelled as a \<^typ>\<open>string\<close>. The characters below 128 are ASCII.
  The Cyrillic letters, which the source needs for its keywords, are taken at their
  ISO-8859-5 positions, so that each of them is one character as in Python.
  \<open>str.lower\<close> is modelled on these two alphabets; \<open>\d\<close> is an ASCII digit, \<open>\w\<close> an ASCII
  letter, digit or underscore or a Cyrillic letter, \<open>\s\<close> the white space of this alphabet.
\<close>

definition lower_char :: "char \<Rightarrow> char" where
  "lower_char c =
     (let n = (of_char c :: nat) in
      if 65 \<le> n \<and> n \<le> 90 then char_of (n + 32)
      else if 176 \<le> n \<and> n \<le> 207 then char_of (n + 32)
      else if (161 \<le> n \<and> n \<le> 172) \<or> n = 174 \<or> n = 175 then char_of (n + 80)
      else c)"

definition lower :: "string \<Rightarrow> string" where
  "lower s = map lower_char s"

definition startswith :: "string \<Rightarrow> string \<Rightarrow> bool" where
  "startswith s p = (take (length p) s = p)"

text \<open>\<open>sub in s\<close> of Python.\<close>

fun contains :: "string \<Rightarrow> string \<Rightarrow> bool" where
  "contains [] sub = (sub = [])"
| "contains (c # cs) sub = (startswith (c # cs) sub \<or> contains cs sub)"

definition is_digit :: "char \<Rightarrow> bool" where
  "is_digit c = (let n = (of_char c :: nat) in 48 \<le> n \<and> n \<le> 57)"

definition is_space :: "char \<Rightarrow> bool" where
  "is_space c =
     (let n = (of_char c :: nat) in (9 \<le> n \<and> n \<le> 13) \<or> (28 \<le> n \<and> n \<le> 32) \<or> n = 133 \<or> n = 160)"

definition is_word :: "char \<Rightarrow> bool" where
  "is_word c =
     (let n = (of_char c :: nat) in
      (48 \<le> n \<and> n \<le> 57) \<or> (65 \<le> n \<and> n \<le> 90) \<or> n = 95 \<or> (97 \<le> n \<and> n \<le> 122)
      \<or> (161 \<le> n \<and> n \<le> 172) \<or> (174 \<le> n \<and> n \<le> 239) \<or> (241 \<le> n \<and> n \<le> 252)
      \<or> n = 254 \<or> n = 255)"

text \<open>\<open>int(s)\<close> on a string of decimal digits.\<close>

definition digit_val :: "char \<Rightarrow> int" where
  "digit_val c = int (of_char c) - 48"

definition int_of_digits :: "string \<Rightarrow> int" where
  "int_of_digits s = foldl (\<lambda>a c. 10 * a + digit_val c) 0 s"

text \<open>\<open>s.strip()\<close>, and \<open>s.replace(c, '')\<close> for a one-character \<open>c\<close>.\<close>

definition strip :: "string \<Rightarrow> string" where
  "strip s = rev (dropWhile is_space (rev (dropWhile is_space s)))"

definition remove_char :: "char \<Rightarrow> string \<Rightarrow> string" where
  "remove_char c s = filter (\<lambda>d. d \<noteq> c) s"

section \<open>Regular expressions\<close>

text \<open>
  The fragment of Python's \<open>re\<close> that the patterns of the source use: literals, a greedy
  repetition of a character class, an optional part, alternatives, sequences and
  capturing groups. \<open>re_match\<close> lists every way the pattern matches at the start of the
  text, in the order in which the backtracking matcher of Python tries them, each with the
  texts of its groups and the rest of the input; the first one is Python's match.
\<close>

datatype rx =
    Lit string
  | Many1 "char \<Rightarrow> bool"
  | Many0 "char \<Rightarrow> bool"
  | Opt rx
  | Alt rx rx
  | Seq rx rx
  | Grp rx

text \<open>The rests after a greedy run of characters of a class, the longest run first.\<close>

fun greedy :: "(char \<Rightarrow> bool) \<Rightarrow> string \<Rightarrow> string list" where
  "greedy p [] = [[]]"
| "greedy p (c # cs) = (if p c then greedy p cs @ [c # cs] else [c # cs])"

fun re_match :: "rx \<Rightarrow> string \<Rightarrow> (string list \<times> string) list" where
  "re_match (Lit l) s = (if startswith s l then [([], drop (length l) s)] else [])"
| "re_match (Many1 p) s = map (\<lambda>r. ([], r)) (butlast (greedy p s))"
| "re_match (Many0 p) s = map (\<lambda>r. ([], r)) (greedy p s)"
| "re_match (Opt r) s = re_match r s @ [([], s)]"
| "re_match (Alt a b) s = re_match a s @ re_match b s"
| "re_match (Seq a b) s =
     concat (map (\<lambda>(g1, rest). map (\<lambda>(g2, rest'). (g1 @ g2, rest')) (re_match b rest))
                 (re_match a s))"
| "re_match (Grp r) s =
     map (\<lambda>(g, rest). (take (length s - length rest) s # g, rest)) (re_match r s)"

text \<open>\<open>re.search\<close>: the first match at the leftmost position that has one; its groups.\<close>

fun re_search :: "rx \<Rightarrow> string \<Rightarrow> string list option" where
  "re_search r [] = (case re_match r [] of [] \<Rightarrow> None | (g, rest) # _ \<Rightarrow> Some g)"
| "re_search r (c # cs) =
     (case re_match r (c # cs) of [] \<Rightarrow> re_search r cs | (g, rest) # _ \<Rightarrow> Some g)"

text \<open>
  \<open>match.group(n)\<close> for \<open>n \<ge> 1\<close>. Every pattern below has its groups outside optional
  parts and alternatives, so a match has all of them.
\<close>

definition re_group :: "string list \<Rightarrow> nat \<Rightarrow> string" where
  "re_group g n = (if 1 \<le> n \<and> n \<le> length g then g ! (n - 1) else [])"

text \<open>
  \<open>re.findall\<close> for a pattern without groups whose matches are not empty: the texts of
  the successive matches, each search starting where the previous match ended.
\<close>

fun re_findall :: "rx \<Rightarrow> string \<Rightarrow> string list" where
  "re_findall r [] = []"
| "re_findall r (c # cs) =
     (case re_match r (c # cs) of
        [] \<Rightarrow> re_findall r cs
      | (g, rest) # _ \<Rightarrow>
          (if length rest < length (c # cs)
           then take (length (c # cs) - length rest) (c # cs) # re_findall r rest
           else re_findall r cs))"

definition seqs :: "rx list \<Rightarrow> rx" where
  "seqs rs = foldr Seq rs (Lit [])"

definition digits :: rx where
  "digits = Many1 is_digit"

section \<open>Post references\<close>

text \<open>
  The source keeps a post as a dictionary; every post has the key \<open>original_link\<close>, and
  the other keys depend on the platform.
\<close>

record post =
  original_link :: string

record vk_post = post +
  post_id :: string

record telegram_post = post +
  channel :: string
  message_id :: int

record ok_post = post +
  group_name :: string
  topic_id :: string

text \<open>The dictionary that \<open>extract_post_ids\<close> returns.\<close>

record posts_data =
  vk :: "vk_post list"
  telegram :: "telegram_post list"
  ok :: "ok_post list"

section \<open>SocialMediaParser\<close>

text \<open>
  \<open>read_links_from_file\<close>. The file is given by its lines, or \<open>None\<close> when it cannot be
  opened or read (the source catches the exception and returns the empty list).
\<close>

definition max_links :: nat where
  "max_links = 100"

definition read_links_from_file :: "string list option \<Rightarrow> string list" where
  "read_links_from_file file =
     (case file of
        None \<Rightarrow> []
      | Some lines \<Rightarrow>
          (let links = map strip (filter (\<lambda>line. strip line \<noteq> []) lines) in
           if links = [] then []
           else if length links > max_links then take max_links links
           else links))"

text \<open>
  The three VK patterns:
  \<^verbatim>\<open>wall-?(\d+)_(\d+)\<close>,
  \<^verbatim>\<open>vk\.com/(?:wall)?(\d+_\d+)\<close> and
  \<^verbatim>\<open>vk\.com/(?:[\w\.]+)\?w=wall-(\d+_\d+)\<close>.
\<close>

definition vk_patterns :: "rx list" where
  "vk_patterns =
     [seqs [Lit ''wall'', Opt (Lit ''-''), Grp digits, Lit ''_'', Grp digits],
      seqs [Lit ''vk.com/'', Opt (Lit ''wall''), Grp (seqs [digits, Lit ''_'', digits])],
      seqs [Lit ''vk.com/'', Many1 (\<lambda>c. is_word c \<or> c = CHR ''.''), Lit ''?w=wall-'',
            Grp (seqs [digits, Lit ''_'', digits])]]"

text \<open>\<open>if not owner_id.startswith('-'): owner_id = f"-{owner_id}"\<close>\<close>

definition normalize_owner_id :: "string \<Rightarrow> string" where
  "normalize_owner_id owner_id =
     (if \<not> startswith owner_id ''-'' then ''-'' @ owner_id else owner_id)"

text \<open>
  The loop over the patterns of \<open>_extract_vk_post\<close>; a pattern comes with its index, and
  \<open>pattern == patterns[0]\<close> is \<open>i = 0\<close>, the three patterns being different. The list
  \<open>vk_posts\<close> that the source appends to is passed in and returned.
\<close>

fun vk_try :: "(nat \<times> rx) list \<Rightarrow> string \<Rightarrow> string \<Rightarrow> vk_post list \<Rightarrow> vk_post list" where
  "vk_try [] link orig vk_posts = vk_posts"
| "vk_try ((i, pattern) # rest) link orig vk_posts =
     (case re_search pattern link of
        None \<Rightarrow> vk_try rest link orig vk_posts
      | Some m \<Rightarrow>
          (let post_id_str =
             (if i = 0 then
                (let owner_id = re_group m 1;
                     post_id = re_group m 2;
                     owner_id = normalize_owner_id owner_id
                 in owner_id @ ''_'' @ post_id)
              else re_group m 1)
           in vk_posts @ [\<lparr>original_link = orig, post_id = post_id_str\<rparr>]))"

definition extract_vk_post :: "string \<Rightarrow> string \<Rightarrow> vk_post list \<Rightarrow> vk_post list" where
  "extract_vk_post link orig vk_posts = vk_try (enumerate 0 vk_patterns) link orig vk_posts"

text \<open>
  The two Telegram patterns:
  \<^verbatim>\<open>(?:t\.me|telegram\.me)/(?:s/)?([^/\?]+)/(\d+)\<close> and
  \<^verbatim>\<open>(?:t\.me|telegram\.me)/c/(\d+)/(\d+)\<close>.
\<close>

definition not_slash_q :: "char \<Rightarrow> bool" where
  "not_slash_q c = (c \<noteq> CHR ''/'' \<and> c \<noteq> CHR ''?'')"

definition telegram_patterns :: "rx list" where
  "telegram_patterns =
     [seqs [Alt (Lit ''t.me'') (Lit ''telegram.me''), Lit ''/'', Opt (Lit ''s/''),
            Grp (Many1 not_slash_q), Lit ''/'', Grp digits],
      seqs [Alt (Lit ''t.me'') (Lit ''telegram.me''), Lit ''/c/'', Grp digits, Lit ''/'',
            Grp digits]]"

text \<open>\<open>link.split('?')[0].split('#')[0]\<close>\<close>

definition clean_link :: "string \<Rightarrow> string" where
  "clean_link link = takeWhile (\<lambda>c. c \<noteq> CHR ''#'') (takeWhile (\<lambda>c. c \<noteq> CHR ''?'') link)"

fun telegram_try :: "rx list \<Rightarrow> string \<Rightarrow> string \<Rightarrow> telegram_post list \<Rightarrow> telegram_post list"
where
  "telegram_try [] cl orig telegram_posts = telegram_posts"
| "telegram_try (pattern # rest) cl orig telegram_posts =
     (case re_search pattern cl of
        None \<Rightarrow> telegram_try rest cl orig telegram_posts
      | Some m \<Rightarrow>
          (let channel = re_group m 1;
               message_id = int_of_digits (re_group m 2);
               channel = (if startswith channel ''@'' then drop 1 channel else channel)
           in telegram_posts @
                [\<lparr>original_link = orig, channel = channel, message_id = message_id\<rparr>]))"

definition extract_telegram_post ::
  "string \<Rightarrow> string \<Rightarrow> telegram_post list \<Rightarrow> telegram_post list" where
  "extract_telegram_post link orig telegram_posts =
     telegram_try telegram_patterns (clean_link link) orig telegram_posts"

text \<open>
  The three OK.ru patterns:
  \<^verbatim>\<open>ok\.ru/([^/\?]+)/topic/(\d+)\<close>,
  \<^verbatim>\<open>ok\.ru/([^/\?]+)/status/(\d+)\<close> and
  \<^verbatim>\<open>ok\.ru/(?:group)?(\d+)/topic/(\d+)\<close>.
\<close>

definition ok_patterns :: "rx list" where
  "ok_patterns =
     [seqs [Lit ''ok.ru/'', Grp (Many1 not_slash_q), Lit ''/topic/'', Grp digits],
      seqs [Lit ''ok.ru/'', Grp (Many1 not_slash_q), Lit ''/status/'', Grp digits],
      seqs [Lit ''ok.ru/'', Opt (Lit ''group''), Grp digits, Lit ''/topic/'', Grp digits]]"

fun ok_try :: "rx list \<Rightarrow> string \<Rightarrow> string \<Rightarrow> ok_post list \<Rightarrow> ok_post list" where
  "ok_try [] link orig ok_posts = ok_posts"
| "ok_try (pattern # rest) link orig ok_posts =
     (case re_search pattern link of
        None \<Rightarrow> ok_try rest link orig ok_posts
      | Some m \<Rightarrow>
          ok_posts @
            [\<lparr>original_link = orig, group_name = re_group m 1, topic_id = re_group m 2\<rparr>])"

definition extract_ok_post :: "string \<Rightarrow> string \<Rightarrow> ok_post list \<Rightarrow> ok_post list" where
  "extract_ok_post link orig ok_posts = ok_try ok_patterns link orig ok_posts"

text \<open>
  The body of the loop of \<open>extract_post_ids\<close> for one link, on the three lists built so
  far, and the loop itself.
\<close>

definition classify_link :: "posts_data \<Rightarrow> string \<Rightarrow> posts_data" where
  "classify_link d link =
     (let link_lower = lower link in
      if contains link_lower ''vk.com'' \<or> startswith link_lower ''wall''
        then d\<lparr>vk := extract_vk_post link_lower link (vk d)\<rparr>
      else if contains link_lower ''t.me'' \<or> contains link_lower ''telegram.me''
        then d\<lparr>telegram := extract_telegram_post link_lower link (telegram d)\<rparr>
      else if contains link_lower ''ok.ru''
        then d\<lparr>ok := extract_ok_post link_lower link (ok d)\<rparr>
      else d)"

definition no_posts :: posts_data where
  "no_posts = \<lparr>vk = [], telegram = [], ok = []\<rparr>"

definition extract_post_ids :: "string list \<Rightarrow> posts_data" where
  "extract_post_ids links = foldl classify_link no_posts links"

section \<open>View results and the remote services\<close>

text \<open>The dictionary \<open>{'link': ..., 'views': ...}\<close> that every fetcher appends.\<close>

record view_result =
  link :: string
  views :: int

text \<open>\<open>str(n)\<close> for an integer, as the f-string of the VK fetcher formats the ids.\<close>

fun str_of_nat :: "nat \<Rightarrow> string" where
  "str_of_nat n =
     (if n < 10 then [char_of (48 + n)] else str_of_nat (n div 10) @ [char_of (48 + n mod 10)])"

definition str_of_int :: "int \<Rightarrow> string" where
  "str_of_int i = (if i < 0 then ''-'' @ str_of_nat (nat (- i)) else str_of_nat (nat i))"

text \<open>A value of the configuration is truthy when it is present and not empty.\<close>

definition truthy :: "string option \<Rightarrow> bool" where
  "truthy v = (case v of None \<Rightarrow> False | Some s \<Rightarrow> s \<noteq> [])"

section \<open>VKParser\<close>

text \<open>
  An item of \<open>response.items\<close>; a key that the item does not have is \<open>None\<close>, and the
  source reads it with the default 0.
\<close>

record vk_item =
  owner_id :: "int option"
  item_id :: "int option"
  views_count :: "int option"

text \<open>
  What the request of \<open>get_views\<close> meets: an exception of the transport, or a reply with
  its status and body. The body is a JSON object with the key \<open>error\<close>, or one without
  it, given by the items of its \<open>response\<close> (none when a key is missing), or something on
  which the code raises: not JSON, or JSON of another shape.
\<close>

datatype vk_body = Malformed | Api_error | Items "vk_item list"

datatype vk_reply = Transport_failure | Http_reply nat vk_body

text \<open>\<open>response.raise_for_status()\<close> raises on the client and server error codes.\<close>

definition raises_for_status :: "nat \<Rightarrow> bool" where
  "raises_for_status status = (400 \<le> status \<and> status < 600)"

record vk_world =
  self_api_token :: "string option"
  config_vk_token :: "string option"
  typed_token :: string
  vk_reply :: vk_reply

text \<open>
  Lines 234 to 239 of \<open>get_views\<close>: the token of the parser after the configuration has
  been looked at and, when it holds no token, the user has been asked. \<open>setup_token\<close>
  stores a token that is not empty in the configuration and in the parser.
\<close>

definition vk_token_after_setup :: "vk_world \<Rightarrow> string option" where
  "vk_token_after_setup w =
     (if \<not> truthy (config_vk_token w) then
        (if \<not> truthy (config_vk_token w) then
           (if strip (typed_token w) \<noteq> [] then Some (strip (typed_token w))
            else config_vk_token w)
         else config_vk_token w)
      else self_api_token w)"

text \<open>The dictionary \<open>post_views\<close>, built from the items; a later item replaces an earlier one.\<close>

definition post_key :: "vk_item \<Rightarrow> string" where
  "post_key item =
     str_of_int (case owner_id item of None \<Rightarrow> 0 | Some v \<Rightarrow> v) @ ''_'' @
     str_of_int (case item_id item of None \<Rightarrow> 0 | Some v \<Rightarrow> v)"

fun build_post_views :: "vk_item list \<Rightarrow> (string \<rightharpoonup> int) \<Rightarrow> (string \<rightharpoonup> int)" where
  "build_post_views [] post_views = post_views"
| "build_post_views (item # rest) post_views =
     build_post_views rest
       (post_views(post_key item \<mapsto> (case views_count item of None \<Rightarrow> 0 | Some v \<Rightarrow> v)))"

text \<open>The loop over \<open>vk_posts\<close>, on the running total and the results so far.\<close>

fun vk_collect ::
  "(string \<rightharpoonup> int) \<Rightarrow> vk_post list \<Rightarrow> int \<times> view_result list \<Rightarrow> int \<times> view_result list" where
  "vk_collect post_views [] acc = acc"
| "vk_collect post_views (vk_post # rest) (total_views, vk_views_data) =
     (let v = (case post_views (post_id vk_post) of None \<Rightarrow> 0 | Some n \<Rightarrow> n)
      in vk_collect post_views rest
           (total_views + v, vk_views_data @ [\<lparr>link = original_link vk_post, views = v\<rparr>]))"

text \<open>The \<open>try\<close> block: every exception ends in \<open>return 0, []\<close>.\<close>

definition vk_request :: "vk_reply \<Rightarrow> vk_post list \<Rightarrow> int \<times> view_result list" where
  "vk_request reply vk_posts =
     (case reply of
        Transport_failure \<Rightarrow> (0, [])
      | Http_reply status body \<Rightarrow>
          (if raises_for_status status then (0, [])
           else (case body of
                   Malformed \<Rightarrow> (0, [])
                 | Api_error \<Rightarrow> (0, [])
                 | Items posts \<Rightarrow>
                     vk_collect (build_post_views posts Map.empty) vk_posts (0, []))))"

definition vk_get_views :: "vk_world \<Rightarrow> vk_post list \<Rightarrow> int \<times> view_result list" where
  "vk_get_views w vk_posts =
     (if vk_posts = [] then (0, [])
      else if \<not> truthy (vk_token_after_setup w) then (0, [])
      else vk_request (vk_reply w) vk_posts)"

section \<open>TelegramParser\<close>

text \<open>
  What \<open>get_messages\<close> does for one post: it returns a message, given by its \<open>views\<close>
  (\<open>None\<close> when there is no message, no such attribute or no value), or it raises
  \<open>FloodWaitError\<close> with its seconds, or it raises something else.
\<close>

datatype tg_outcome = Message "int option" | Flood_wait nat | Other_error

text \<open>
  The credentials after lines 353 to 362, as the three attributes of the parser. A
  configuration that holds all three leaves the attributes as they are; otherwise they
  are read from the configuration and, when one is missing, the user is asked:
  \<open>setup_credentials\<close> stores the three answers when none is empty and the first is a
  number, and the attributes are read from the configuration again.
\<close>

record tg_creds =
  api_id :: "int option"
  api_hash :: "string option"
  phone :: "string option"

definition all_creds :: "tg_creds \<Rightarrow> bool" where
  "all_creds c =
     ((case api_id c of None \<Rightarrow> False | Some n \<Rightarrow> n \<noteq> 0) \<and> truthy (api_hash c) \<and> truthy (phone c))"

record tg_world =
  self_creds :: tg_creds
  config_creds :: tg_creds
  typed_api_id :: string
  typed_api_hash :: string
  typed_phone :: string
  connect_ok :: bool
  get_messages :: "nat \<Rightarrow> tg_outcome"

text \<open>\<open>int(api_id)\<close> on the answer: a string of digits here.\<close>

definition setup_credentials :: "tg_world \<Rightarrow> tg_creds" where
  "setup_credentials w =
     (let a = strip (typed_api_id w); h = strip (typed_api_hash w); p = strip (typed_phone w) in
      if a \<noteq> [] \<and> h \<noteq> [] \<and> p \<noteq> [] then
        (if list_all is_digit a
         then \<lparr>api_id = Some (int_of_digits a), api_hash = Some h, phone = Some p\<rparr>
         else config_creds w)
      else config_creds w)"

definition tg_creds_after_setup :: "tg_world \<Rightarrow> tg_creds" where
  "tg_creds_after_setup w =
     (if \<not> all_creds (config_creds w) then
        (if \<not> all_creds (config_creds w) then setup_credentials w else config_creds w)
      else self_creds w)"

record tg_state =
  total_views :: int
  telegram_views_data :: "view_result list"
  slept :: "rat list"

text \<open>\<open>asyncio.sleep\<close>: the state records every wait, in seconds.\<close>

definition sleep :: "rat \<Rightarrow> tg_state \<Rightarrow> tg_state" where
  "sleep secs st = st\<lparr>slept := slept st @ [secs]\<rparr>"

text \<open>The body of the loop for post number \<open>i\<close> (counted from 1), and the loop.\<close>

definition tg_step :: "(nat \<Rightarrow> tg_outcome) \<Rightarrow> nat \<Rightarrow> telegram_post \<Rightarrow> tg_state \<Rightarrow> tg_state" where
  "tg_step get i post_info st =
     sleep (1 / 2)
       (case get i of
          Message v \<Rightarrow>
            (let n = (case v of None \<Rightarrow> 0 | Some k \<Rightarrow> k)
             in st\<lparr>total_views := total_views st + n,
                   telegram_views_data :=
                     telegram_views_data st @ [\<lparr>link = original_link post_info, views = n\<rparr>]\<rparr>)
        | Flood_wait secs \<Rightarrow> sleep (of_nat secs) st
        | Other_error \<Rightarrow>
            st\<lparr>telegram_views_data :=
                 telegram_views_data st @ [\<lparr>link = original_link post_info, views = 0\<rparr>]\<rparr>)"

fun tg_loop :: "(nat \<Rightarrow> tg_outcome) \<Rightarrow> nat \<Rightarrow> telegram_post list \<Rightarrow> tg_state \<Rightarrow> tg_state" where
  "tg_loop get i [] st = st"
| "tg_loop get i (post_info # rest) st = tg_loop get (Suc i) rest (tg_step get i post_info st)"

text \<open>\<open>get_views_async\<close>, with the waits it made, and what it returns.\<close>

definition tg_run :: "tg_world \<Rightarrow> telegram_post list \<Rightarrow> tg_state" where
  "tg_run w telegram_posts =
     (let nothing = \<lparr>total_views = 0, telegram_views_data = [], slept = []\<rparr> in
      if telegram_posts = [] then nothing
      else if \<not> all_creds (tg_creds_after_setup w) then nothing
      else if \<not> connect_ok w then nothing
      else tg_loop (get_messages w) 1 telegram_posts nothing)"

definition telegram_get_views :: "tg_world \<Rightarrow> telegram_post list \<Rightarrow> int \<times> view_result list" where
  "telegram_get_views w telegram_posts =
     (let st = tg_run w telegram_posts in (total_views st, telegram_views_data st))"

section \<open>OKParser\<close>

text \<open>
  A page as \<open>BeautifulSoup\<close> hands it to the extraction: a tree of tags, each with its
  name, its attributes and its children, and of texts. The name of a tag is in lower
  case, as the parser of the library leaves it.
\<close>

datatype node = Tag string "(string \<times> string) list" "node list" | Text string

type_synonym soup = "node list"

text \<open>A node and everything below it, in the order of the document.\<close>

fun descendants :: "node \<Rightarrow> node list" where
  "descendants (Text s) = [Text s]"
| "descendants (Tag name attrs children) =
     Tag name attrs children # concat (map descendants children)"

definition all_nodes :: "soup \<Rightarrow> node list" where
  "all_nodes page = concat (map descendants page)"

text \<open>\<open>elem.get_text()\<close>: the texts below the element, joined.\<close>

fun get_text :: "node \<Rightarrow> string" where
  "get_text (Text s) = s"
| "get_text (Tag name attrs children) = concat (map get_text children)"

text \<open>
  A pattern compiled with \<open>re.I\<close>, searched in a text: the patterns of the source are in
  lower case, and the search is made in the lowered text.
\<close>

definition re_search_i :: "rx \<Rightarrow> string \<Rightarrow> bool" where
  "re_search_i r s = (re_search r (lower s) \<noteq> None)"

definition any_char :: "char \<Rightarrow> bool" where
  "any_char c = (c \<noteq> CHR 0x0A)"

text \<open>
  The five selectors, each the name of an attribute and the pattern for its value:
  \<^verbatim>\<open>view\<close>, \<^verbatim>\<open>count\<close> and \<^verbatim>\<open>visitors\<close> on the class,
  \<^verbatim>\<open>.*view.*\<close> on \<open>data-l\<close> and \<^verbatim>\<open>.*like.*\<close> on \<open>data-module\<close>. A class
  pattern without white space is found in one of the classes of an element exactly when
  it is found in the whole attribute.
\<close>

definition view_selectors :: "(string \<times> rx) list" where
  "view_selectors =
     [(''class'', Lit ''view''),
      (''class'', Lit ''count''),
      (''class'', Lit ''visitors''),
      (''data-l'', seqs [Many0 any_char, Lit ''view'', Many0 any_char]),
      (''data-module'', seqs [Many0 any_char, Lit ''like'', Many0 any_char])]"

text \<open>\<open>soup.find_all(**selector)\<close>: the tags with the attribute whose value matches.\<close>

definition matches_selector :: "string \<times> rx \<Rightarrow> node \<Rightarrow> bool" where
  "matches_selector selector n =
     (case n of
        Text s \<Rightarrow> False
      | Tag name attrs children \<Rightarrow>
          (case map_of attrs (fst selector) of
             None \<Rightarrow> False
           | Some v \<Rightarrow> re_search_i (snd selector) v))"

definition find_all_attr :: "string \<times> rx \<Rightarrow> soup \<Rightarrow> node list" where
  "find_all_attr selector page = filter (matches_selector selector) (all_nodes page)"

text \<open>
  The Cyrillic words of the source for views, likes and members, and the pattern
  \<^verbatim>\<open>\d+\s*(?:...|...|...)\<close> over them.
\<close>

definition prosmotr :: string where
  "prosmotr = [CHR 0xDF, CHR 0xE0, CHR 0xDE, CHR 0xE1, CHR 0xDC, CHR 0xDE, CHR 0xE2, CHR 0xE0]"

definition laik :: string where
  "laik = [CHR 0xDB, CHR 0xD0, CHR 0xD9, CHR 0xDA]"

definition uchastnik :: string where
  "uchastnik = [CHR 0xE3, CHR 0xE7, CHR 0xD0, CHR 0xE1, CHR 0xE2, CHR 0xDD, CHR 0xD8, CHR 0xDA]"

definition count_noun_pattern :: rx where
  "count_noun_pattern =
     seqs [digits, Many0 is_space, Alt (Lit prosmotr) (Alt (Lit laik) (Lit uchastnik))]"

text \<open>\<open>soup.find_all(string=...)\<close>: the texts of the page that the pattern is found in.\<close>

fun text_of :: "node \<Rightarrow> string option" where
  "text_of (Text s) = Some s"
| "text_of (Tag name attrs children) = None"

definition find_all_string :: "rx \<Rightarrow> soup \<Rightarrow> string list" where
  "find_all_string r page = filter (re_search_i r) (List.map_filter text_of (all_nodes page))"

text \<open>\<open>soup.find_all('meta')\<close>, each tag given by \<open>meta.get('content', '')\<close>.\<close>

fun meta_content :: "node \<Rightarrow> string option" where
  "meta_content (Text s) = None"
| "meta_content (Tag name attrs children) =
     (if name = ''meta''
      then Some (case map_of attrs ''content'' of None \<Rightarrow> [] | Some v \<Rightarrow> v)
      else None)"

definition find_all_meta :: "soup \<Rightarrow> string list" where
  "find_all_meta page = List.map_filter meta_content (all_nodes page)"

text \<open>\<open>[int(n) for n in numbers if 10 < int(n) < 1000000]\<close>\<close>

definition plausible :: "string list \<Rightarrow> int list" where
  "plausible numbers =
     map int_of_digits (filter (\<lambda>n. 10 < int_of_digits n \<and> int_of_digits n < 1000000) numbers)"

text \<open>\<open>max(xs)\<close> on a list that is not empty.\<close>

fun max_list :: "int list \<Rightarrow> int" where
  "max_list [] = 0"
| "max_list (x # xs) = fold max xs x"

text \<open>The three parts of \<open>_extract_views_from_html\<close>, each with what it adds to \<open>all_numbers\<close>.\<close>

definition numbers_of_selectors :: "soup \<Rightarrow> int list" where
  "numbers_of_selectors page =
     concat (map (\<lambda>selector.
       concat (map (\<lambda>elem.
         plausible (re_findall digits (remove_char CHR '','' (remove_char CHR '' '' (get_text elem)))))
         (find_all_attr selector page)))
       view_selectors)"

definition numbers_of_texts :: "soup \<Rightarrow> int list" where
  "numbers_of_texts page =
     concat (map (\<lambda>t. plausible (re_findall digits t)) (find_all_string count_noun_pattern page))"

definition numbers_of_metas :: "soup \<Rightarrow> int list" where
  "numbers_of_metas page =
     concat (map (\<lambda>content.
       if contains (lower content) prosmotr then plausible (re_findall digits content) else [])
       (find_all_meta page))"

definition extract_views_from_html :: "soup \<Rightarrow> int" where
  "extract_views_from_html page =
     (let all_numbers = numbers_of_selectors page @ numbers_of_texts page @ numbers_of_metas page
      in if all_numbers \<noteq> [] then max_list all_numbers else 0)"


text \<open>
  What the request for one post meets: a reply with its status and its page, or an
  exception. The state records the running total, the results and the waits.
\<close>

datatype ok_outcome = Reply nat soup | Request_failed

record ok_state =
  ok_total_views :: int
  ok_views_data :: "view_result list"
  ok_slept :: "rat list"

definition ok_step :: "(nat \<Rightarrow> ok_outcome) \<Rightarrow> nat \<Rightarrow> ok_post \<Rightarrow> ok_state \<Rightarrow> ok_state" where
  "ok_step get i ok_post st =
     (let url = original_link ok_post;
          v = (case get i of
                 Reply status page \<Rightarrow> (if status = 200 then extract_views_from_html page else 0)
               | Request_failed \<Rightarrow> 0)
      in st\<lparr>ok_total_views := ok_total_views st + v,
            ok_views_data := ok_views_data st @ [\<lparr>link = url, views = v\<rparr>],
            ok_slept := ok_slept st @ [2]\<rparr>)"

fun ok_loop :: "(nat \<Rightarrow> ok_outcome) \<Rightarrow> nat \<Rightarrow> ok_post list \<Rightarrow> ok_state \<Rightarrow> ok_state" where
  "ok_loop get i [] st = st"
| "ok_loop get i (ok_post # rest) st = ok_loop get (Suc i) rest (ok_step get i ok_post st)"

definition ok_run :: "(nat \<Rightarrow> ok_outcome) \<Rightarrow> ok_post list \<Rightarrow> ok_state" where
  "ok_run get ok_posts =
     (let nothing = \<lparr>ok_total_views = 0, ok_views_data = [], ok_slept = []\<rparr> in
      if ok_posts = [] then nothing else ok_loop get 1 ok_posts nothing)"

definition ok_get_views :: "(nat \<Rightarrow> ok_outcome) \<Rightarrow> ok_post list \<Rightarrow> int \<times> view_result list" where
  "ok_get_views get ok_posts =
     (let st = ok_run get ok_posts in (ok_total_views st, ok_views_data st))"

section \<open>main\<close>

text \<open>
  Everything outside the program: the file of links and the three services. What a run
  reports: nothing about views when no link was read, the total, or that no data could
  be obtained. The total is reported in thousands with one decimal; the report of the
  model is the total itself.
\<close>

record world =
  links_file :: "string list option"
  vk_side :: vk_world
  telegram_side :: tg_world
  ok_side :: "nat \<Rightarrow> ok_outcome"

datatype report = No_links | Total_views int | No_data

text \<open>Lines 529 to 557: the subtotals of the platforms that have posts, and the report.\<close>

definition aggregate :: "world \<Rightarrow> posts_data \<Rightarrow> report" where
  "aggregate w d =
     (let t0 = (0 :: int);
          t1 = (if vk d \<noteq> [] then t0 + fst (vk_get_views (vk_side w) (vk d)) else t0);
          t2 = (if telegram d \<noteq> []
                then t1 + fst (telegram_get_views (telegram_side w) (telegram d)) else t1);
          t3 = (if ok d \<noteq> [] then t2 + fst (ok_get_views (ok_side w) (ok d)) else t2)
      in if t3 > 0 then Total_views t3 else No_data)"

definition main :: "world \<Rightarrow> report" where
  "main w =
     (let links = read_links_from_file (links_file w) in
      if links = [] then No_links else aggregate w (extract_post_ids links))"

section \<open>The classifier appends, one post at most for a link\<close>

lemma vk_try_append: "vk_try ps l orig acc = acc @ vk_try ps l orig []"
  by (induction ps l orig acc rule: vk_try.induct) (auto split: option.splits simp: Let_def)

lemma telegram_try_append: "telegram_try ps l orig acc = acc @ telegram_try ps l orig []"
  by (induction ps l orig acc rule: telegram_try.induct) (auto split: option.splits simp: Let_def)

lemma ok_try_append: "ok_try ps l orig acc = acc @ ok_try ps l orig []"
  by (induction ps l orig acc rule: ok_try.induct) (auto split: option.splits)

lemma vk_try_single:
  "vk_try ps l orig [] = [] \<or> (\<exists>p. vk_try ps l orig [] = [p] \<and> original_link p = orig)"
  by (induction ps l orig "[] :: vk_post list" rule: vk_try.induct)
     (auto split: option.splits simp: Let_def)

lemma telegram_try_single:
  "telegram_try ps l orig [] = []
   \<or> (\<exists>p. telegram_try ps l orig [] = [p] \<and> original_link p = orig)"
  by (induction ps l orig "[] :: telegram_post list" rule: telegram_try.induct)
     (auto split: option.splits simp: Let_def)

lemma ok_try_single:
  "ok_try ps l orig [] = [] \<or> (\<exists>p. ok_try ps l orig [] = [p] \<and> original_link p = orig)"
  by (induction ps l orig "[] :: ok_post list" rule: ok_try.induct)
     (auto split: option.splits)

lemma classify_link_vk: "vk (classify_link d l) = vk d @ vk (classify_link no_posts l)"
  using vk_try_append [of "enumerate 0 vk_patterns" "lower l" l "vk d"]
  by (simp add: classify_link_def Let_def extract_vk_post_def no_posts_def)

lemma classify_link_telegram:
  "telegram (classify_link d l) = telegram d @ telegram (classify_link no_posts l)"
  using telegram_try_append [of telegram_patterns "clean_link (lower l)" l "telegram d"]
  by (simp add: classify_link_def Let_def extract_telegram_post_def no_posts_def)

lemma classify_link_ok: "ok (classify_link d l) = ok d @ ok (classify_link no_posts l)"
  using ok_try_append [of ok_patterns "lower l" l "ok d"]
  by (simp add: classify_link_def Let_def extract_ok_post_def no_posts_def)

lemma classify_one:
  "classify_link no_posts l = no_posts
   \<or> (\<exists>p. classify_link no_posts l = no_posts\<lparr>vk := [p]\<rparr> \<and> original_link p = l)
   \<or> (\<exists>p. classify_link no_posts l = no_posts\<lparr>telegram := [p]\<rparr> \<and> original_link p = l)
   \<or> (\<exists>p. classify_link no_posts l = no_posts\<lparr>ok := [p]\<rparr> \<and> original_link p = l)"
  using vk_try_single [of "enumerate 0 vk_patterns" "lower l" l]
        telegram_try_single [of telegram_patterns "clean_link (lower l)" l]
        ok_try_single [of ok_patterns "lower l" l]
  by (auto simp: classify_link_def Let_def extract_vk_post_def extract_telegram_post_def
        extract_ok_post_def no_posts_def)

lemma foldl_classify_vk:
  "vk (foldl classify_link d ls) = vk d @ concat (map (\<lambda>l. vk (classify_link no_posts l)) ls)"
proof (induction ls arbitrary: d)
  case Nil
  show ?case by simp
next
  case (Cons l ls)
  show ?case using Cons.IH [of "classify_link d l"] classify_link_vk [of d l] by simp
qed

lemma foldl_classify_telegram:
  "telegram (foldl classify_link d ls) =
     telegram d @ concat (map (\<lambda>l. telegram (classify_link no_posts l)) ls)"
proof (induction ls arbitrary: d)
  case Nil
  show ?case by simp
next
  case (Cons l ls)
  show ?case using Cons.IH [of "classify_link d l"] classify_link_telegram [of d l] by simp
qed

lemma foldl_classify_ok:
  "ok (foldl classify_link d ls) = ok d @ concat (map (\<lambda>l. ok (classify_link no_posts l)) ls)"
proof (induction ls arbitrary: d)
  case Nil
  show ?case by simp
next
  case (Cons l ls)
  show ?case using Cons.IH [of "classify_link d l"] classify_link_ok [of d l] by simp
qed

lemma extract_one: "extract_post_ids [l] = classify_link no_posts l"
  by (simp add: extract_post_ids_def)

lemma vk_of_links:
  "vk (extract_post_ids ls) = concat (map (\<lambda>l. vk (extract_post_ids [l])) ls)"
  by (simp add: extract_one) (simp add: extract_post_ids_def foldl_classify_vk no_posts_def)

lemma telegram_of_links:
  "telegram (extract_post_ids ls) = concat (map (\<lambda>l. telegram (extract_post_ids [l])) ls)"
  by (simp add: extract_one) (simp add: extract_post_ids_def foldl_classify_telegram no_posts_def)

lemma ok_of_links:
  "ok (extract_post_ids ls) = concat (map (\<lambda>l. ok (extract_post_ids [l])) ls)"
  by (simp add: extract_one) (simp add: extract_post_ids_def foldl_classify_ok no_posts_def)

lemma links_of_concat:
  assumes "\<And>l. f l = [] \<or> (\<exists>p. f l = [p] \<and> original_link p = l)"
  shows "map original_link (concat (map f ls)) = filter (\<lambda>l. f l \<noteq> []) ls"
proof (induction ls)
  case Nil
  show ?case by simp
next
  case (Cons l ls)
  from assms [of l] Cons.IH show ?case by auto
qed

section \<open>The VK URL variants\<close>

text \<open>
  C5. Each of \<open>wall-123_456\<close>, \<open>vk.com/wall123_456\<close> and \<open>vk.com/club?w=wall-123_456\<close> is
  matched by the first pattern with the groups 123 and 456; the owner id becomes -123,
  and the link is classified as the one VK post with the composite id -123_456. The
  normalised owner id starts with a minus whatever the matched owner id is.
\<close>

theorem vk_url_variants:
  "re_search (vk_patterns ! 0) ''wall-123_456'' = Some [''123'', ''456'']
   \<and> re_search (vk_patterns ! 0) ''vk.com/wall123_456'' = Some [''123'', ''456'']
   \<and> re_search (vk_patterns ! 0) ''vk.com/club?w=wall-123_456'' = Some [''123'', ''456'']
   \<and> normalize_owner_id ''123'' = ''-123''
   \<and> extract_post_ids [''wall-123_456''] =
       \<lparr>vk = [\<lparr>original_link = ''wall-123_456'', post_id = ''-123_456''\<rparr>],
        telegram = [], ok = []\<rparr>
   \<and> extract_post_ids [''vk.com/wall123_456''] =
       \<lparr>vk = [\<lparr>original_link = ''vk.com/wall123_456'', post_id = ''-123_456''\<rparr>],
        telegram = [], ok = []\<rparr>
   \<and> extract_post_ids [''vk.com/club?w=wall-123_456''] =
       \<lparr>vk = [\<lparr>original_link = ''vk.com/club?w=wall-123_456'', post_id = ''-123_456''\<rparr>],
        telegram = [], ok = []\<rparr>
   \<and> startswith (normalize_owner_id s) ''-''"
proof -
  have a: "re_search (vk_patterns ! 0) ''wall-123_456'' = Some [''123'', ''456'']"
    by code_simp
  have b: "re_search (vk_patterns ! 0) ''vk.com/wall123_456'' = Some [''123'', ''456'']"
    by code_simp
  have c: "re_search (vk_patterns ! 0) ''vk.com/club?w=wall-123_456'' = Some [''123'', ''456'']"
    by code_simp
  have d: "normalize_owner_id ''123'' = ''-123''"
    by code_simp
  have e: "extract_post_ids [''wall-123_456''] =
       \<lparr>vk = [\<lparr>original_link = ''wall-123_456'', post_id = ''-123_456''\<rparr>],
        telegram = [], ok = []\<rparr>"
    by code_simp
  have f: "extract_post_ids [''vk.com/wall123_456''] =
       \<lparr>vk = [\<lparr>original_link = ''vk.com/wall123_456'', post_id = ''-123_456''\<rparr>],
        telegram = [], ok = []\<rparr>"
    by code_simp
  have g: "extract_post_ids [''vk.com/club?w=wall-123_456''] =
       \<lparr>vk = [\<lparr>original_link = ''vk.com/club?w=wall-123_456'', post_id = ''-123_456''\<rparr>],
        telegram = [], ok = []\<rparr>"
    by code_simp
  have h: "startswith (normalize_owner_id s) ''-''"
    by (simp add: normalize_owner_id_def startswith_def)
  from a b c d e f g h show ?thesis by blast
qed

section \<open>Every link goes to one sequence at most, in order, with its text\<close>

lemma vk_one: "vk (extract_post_ids [l]) = [] \<or> (\<exists>p. vk (extract_post_ids [l]) = [p] \<and> original_link p = l)"
  using classify_one [of l] by (auto simp: extract_one no_posts_def)

lemma telegram_one: "telegram (extract_post_ids [l]) = [] \<or> (\<exists>p. telegram (extract_post_ids [l]) = [p] \<and> original_link p = l)"
  using classify_one [of l] by (auto simp: extract_one no_posts_def)

lemma ok_one: "ok (extract_post_ids [l]) = [] \<or> (\<exists>p. ok (extract_post_ids [l]) = [p] \<and> original_link p = l)"
  using classify_one [of l] by (auto simp: extract_one no_posts_def)

lemma at_most_one:
  "length (vk (extract_post_ids [l])) + length (telegram (extract_post_ids [l]))
     + length (ok (extract_post_ids [l])) \<le> 1"
  using classify_one [of l] by (auto simp: extract_one no_posts_def)

text \<open>
  C9. The original links of the posts of each of the three sequences are the input links
  that are classified into that sequence, as they were given and in the order of the
  input; and a link yields at most one post in the three sequences together.
\<close>

theorem classification_keeps_links:
  "map original_link (vk (extract_post_ids ls)) = filter (\<lambda>l. vk (extract_post_ids [l]) \<noteq> []) ls
   \<and> map original_link (telegram (extract_post_ids ls)) =
       filter (\<lambda>l. telegram (extract_post_ids [l]) \<noteq> []) ls
   \<and> map original_link (ok (extract_post_ids ls)) = filter (\<lambda>l. ok (extract_post_ids [l]) \<noteq> []) ls
   \<and> length (vk (extract_post_ids [l])) + length (telegram (extract_post_ids [l]))
       + length (ok (extract_post_ids [l])) \<le> 1"
proof -
  have a: "map original_link (vk (extract_post_ids ls)) =
      filter (\<lambda>l. vk (extract_post_ids [l]) \<noteq> []) ls"
    using links_of_concat [of "\<lambda>l. vk (extract_post_ids [l])" ls, OF vk_one]
    by (simp add: vk_of_links [of ls])
  have b: "map original_link (telegram (extract_post_ids ls)) =
      filter (\<lambda>l. telegram (extract_post_ids [l]) \<noteq> []) ls"
    using links_of_concat [of "\<lambda>l. telegram (extract_post_ids [l])" ls, OF telegram_one]
    by (simp add: telegram_of_links [of ls])
  have c: "map original_link (ok (extract_post_ids ls)) =
      filter (\<lambda>l. ok (extract_post_ids [l]) \<noteq> []) ls"
    using links_of_concat [of "\<lambda>l. ok (extract_post_ids [l])" ls, OF ok_one]
    by (simp add: ok_of_links [of ls])
  from a b c at_most_one [of l] show ?thesis by blast
qed

section \<open>The cap of 100 links\<close>

lemma read_links_take:
  "read_links_from_file (Some lines) = take 100 (map strip (filter (\<lambda>line. strip line \<noteq> []) lines))"
  by (simp add: read_links_from_file_def Let_def max_links_def)

lemma vk_wall_1_2: "vk (extract_post_ids [''wall-1_2'']) = [\<lparr>original_link = ''wall-1_2'', post_id = ''-1_2''\<rparr>]"
  by code_simp

lemma vk_wall_7_9: "vk (extract_post_ids [''wall-7_9'']) = [\<lparr>original_link = ''wall-7_9'', post_id = ''-7_9''\<rparr>]"
  by code_simp

text \<open>
  C1, as stated, fails: \<open>extract_post_ids\<close> has no cap. Given 101 links it classifies all
  of them, the last one included.
\<close>

theorem classify_all_101_counterexample:
  "length (replicate 100 ''wall-1_2'' @ [''wall-7_9'']) = 101
   \<and> vk (extract_post_ids (replicate 100 ''wall-1_2'' @ [''wall-7_9''])) =
       replicate 100 \<lparr>original_link = ''wall-1_2'', post_id = ''-1_2''\<rparr>
         @ [\<lparr>original_link = ''wall-7_9'', post_id = ''-7_9''\<rparr>]
   \<and> vk (extract_post_ids (take 100 (replicate 100 ''wall-1_2'' @ [''wall-7_9'']))) =
       replicate 100 \<lparr>original_link = ''wall-1_2'', post_id = ''-1_2''\<rparr>"
proof -
  have r: "concat (replicate n [x]) = replicate n x" for n and x :: vk_post
    by (induction n) simp_all
  have a: "vk (extract_post_ids (replicate 100 ''wall-1_2'' @ [''wall-7_9''])) =
       replicate 100 \<lparr>original_link = ''wall-1_2'', post_id = ''-1_2''\<rparr>
         @ [\<lparr>original_link = ''wall-7_9'', post_id = ''-7_9''\<rparr>]"
    by (simp only: vk_of_links [of "replicate 100 ''wall-1_2'' @ [''wall-7_9'']"]
          map_append map_replicate list.map concat_append vk_wall_1_2 vk_wall_7_9 r concat.simps
          append_Nil2)
  have b: "vk (extract_post_ids (take 100 (replicate 100 ''wall-1_2'' @ [''wall-7_9'']))) =
       replicate 100 \<lparr>original_link = ''wall-1_2'', post_id = ''-1_2''\<rparr>"
    by (simp add: vk_of_links [of "replicate 100 ''wall-1_2''"] vk_wall_1_2 r)
  from a b show ?thesis by simp
qed

text \<open>
  C1, amended. The cap is applied by \<open>read_links_from_file\<close>: it returns the first 100
  lines that are not blank, stripped, and never more than 100, and a file that cannot be
  read yields no link instead of an error. So the links that a run classifies are the
  first 100 of the file.
\<close>

theorem cap_is_applied_by_reader:
  "read_links_from_file (Some lines) =
     take 100 (map strip (filter (\<lambda>line. strip line \<noteq> []) lines))
   \<and> read_links_from_file None = []
   \<and> length (read_links_from_file file) \<le> 100
   \<and> extract_post_ids (read_links_from_file (Some lines)) =
       extract_post_ids (take 100 (map strip (filter (\<lambda>line. strip line \<noteq> []) lines)))"
proof -
  have a: "read_links_from_file None = []" by (simp add: read_links_from_file_def)
  have b: "length (read_links_from_file file) \<le> 100"
    by (cases "file :: string list option") (simp_all add: a read_links_take)
  from a b read_links_take show ?thesis by simp
qed

section \<open>The query string and the fragment of a Telegram link\<close>

lemma telegram_try_orig:
  "map (\<lambda>p. (channel p, message_id p)) (telegram_try ps cl o1 acc) =
   map (\<lambda>p. (channel p, message_id p)) (telegram_try ps cl o2 acc)"
  by (induction ps cl o1 acc rule: telegram_try.induct) (auto split: option.splits simp: Let_def)

lemma takeWhile_absent:
  "c \<notin> set u \<Longrightarrow> takeWhile (\<lambda>d. d \<noteq> c) (u @ r) = u @ takeWhile (\<lambda>d. d \<noteq> c) r"
  by (induction u) auto

lemma clean_link_plain:
  assumes "CHR ''?'' \<notin> set u" and "CHR ''#'' \<notin> set u"
  shows "clean_link u = u"
proof -
  have a: "takeWhile (\<lambda>c. c \<noteq> CHR ''?'') u = u"
    using takeWhile_absent [OF assms(1), of "[]"] by simp
  have b: "takeWhile (\<lambda>c. c \<noteq> CHR ''#'') u = u"
    using takeWhile_absent [OF assms(2), of "[]"] by simp
  show ?thesis by (simp only: clean_link_def a b)
qed

lemma clean_link_query:
  assumes "CHR ''?'' \<notin> set u" and "CHR ''#'' \<notin> set u"
  shows "clean_link (u @ CHR ''?'' # q) = u"
proof -
  have a: "takeWhile (\<lambda>c. c \<noteq> CHR ''?'') (u @ CHR ''?'' # q) = u"
    using takeWhile_absent [OF assms(1), of "CHR ''?'' # q"] by simp
  have b: "takeWhile (\<lambda>c. c \<noteq> CHR ''#'') u = u"
    using takeWhile_absent [OF assms(2), of "[]"] by simp
  show ?thesis by (simp only: clean_link_def a b)
qed

lemma clean_link_fragment:
  assumes "CHR ''?'' \<notin> set u" and "CHR ''#'' \<notin> set u"
  shows "clean_link (u @ CHR ''#'' # f) = u"
proof -
  have a: "takeWhile (\<lambda>c. c \<noteq> CHR ''?'') (u @ CHR ''#'' # f) =
      u @ CHR ''#'' # takeWhile (\<lambda>c. c \<noteq> CHR ''?'') f"
    using takeWhile_absent [OF assms(1), of "CHR ''#'' # f"] by simp
  have b: "takeWhile (\<lambda>c. c \<noteq> CHR ''#'') (u @ CHR ''#'' # r) = u" for r
    using takeWhile_absent [OF assms(2), of "CHR ''#'' # r"] by simp
  show ?thesis by (simp only: clean_link_def a b)
qed

text \<open>
  C6. For a link \<open>u\<close> without \<open>?\<close> and \<open>#\<close>, the extraction from \<open>u\<close> followed by a query
  string or by a fragment works on \<open>u\<close> itself after the stripping, and so yields the
  channel and the message id that it yields from \<open>u\<close>, whatever the original links
  recorded with them.
\<close>

theorem telegram_trailing_part_stripped:
  assumes "CHR ''?'' \<notin> set u" and "CHR ''#'' \<notin> set u"
  shows "map (\<lambda>p. (channel p, message_id p)) (extract_telegram_post (u @ CHR ''?'' # q) o1 ps) =
         map (\<lambda>p. (channel p, message_id p)) (extract_telegram_post u o2 ps)
       \<and> map (\<lambda>p. (channel p, message_id p)) (extract_telegram_post (u @ CHR ''#'' # f) o1 ps) =
         map (\<lambda>p. (channel p, message_id p)) (extract_telegram_post u o2 ps)
       \<and> clean_link (u @ CHR ''?'' # q) = u \<and> clean_link (u @ CHR ''#'' # f) = u"
  using assms telegram_try_orig [of telegram_patterns u o1 ps o2]
  by (simp add: extract_telegram_post_def clean_link_query clean_link_fragment clean_link_plain)

theorem telegram_trailing_part_stripped_witness:
  "CHR ''?'' \<notin> set ''t.me/name/42'' \<and> CHR ''#'' \<notin> set ''t.me/name/42''
   \<and> map (\<lambda>p. (channel p, message_id p))
        (extract_telegram_post ''t.me/name/42?x=1'' ''t.me/name/42?x=1'' []) = [(''name'', 42)]
   \<and> map (\<lambda>p. (channel p, message_id p))
        (extract_telegram_post ''t.me/name/42#top'' ''t.me/name/42#top'' []) = [(''name'', 42)]"
proof -
  have h1: "CHR ''?'' \<notin> set ''t.me/name/42''" by simp
  have h2: "CHR ''#'' \<notin> set ''t.me/name/42''" by simp
  have e: "map (\<lambda>p. (channel p, message_id p))
        (extract_telegram_post ''t.me/name/42'' ''t.me/name/42'' []) = [(''name'', 42)]"
    by code_simp
  from telegram_trailing_part_stripped [OF h1 h2, of "''x=1''" "''t.me/name/42?x=1''" "[]"
      "''t.me/name/42''" "''top''"]
    telegram_trailing_part_stripped [OF h1 h2, of "''x=1''" "''t.me/name/42#top''" "[]"
      "''t.me/name/42''" "''top''"] e h1 h2
  show ?thesis by simp
qed

section \<open>The VK fetcher\<close>

lemma vk_collect_eq:
  "vk_collect pv ps (t, rs) =
     (t + sum_list (map (\<lambda>p. case pv (post_id p) of None \<Rightarrow> 0 | Some n \<Rightarrow> n) ps),
      rs @ map (\<lambda>p. \<lparr>link = original_link p,
                       views = (case pv (post_id p) of None \<Rightarrow> 0 | Some n \<Rightarrow> n)\<rparr>) ps)"
  by (induction ps arbitrary: t rs) (simp_all add: Let_def)

lemma dom_build_post_views:
  "dom (build_post_views items m) = dom m \<union> post_key ` set items"
  by (induction items arbitrary: m) auto

text \<open>
  C3. When the parser has a token and the reply has a status that does not raise and a
  body with items, the results are one per input post, in the order of the input, each
  with the link of its post and with the views that the dictionary built from the items
  has for the composite id of the post, or 0 when the dictionary has no such key; the
  keys of the dictionary are the ids of the items; and the total is the sum of the views
  of the results.
\<close>

theorem vk_success_one_result_per_post:
  assumes "truthy (vk_token_after_setup w)"
    and "vk_reply w = Http_reply status (Items items)"
    and "\<not> raises_for_status status"
  shows "snd (vk_get_views w ps) =
           map (\<lambda>p. \<lparr>link = original_link p,
                      views = (case build_post_views items Map.empty (post_id p) of
                                 None \<Rightarrow> 0 | Some n \<Rightarrow> n)\<rparr>) ps
       \<and> fst (vk_get_views w ps) = sum_list (map views (snd (vk_get_views w ps)))
       \<and> dom (build_post_views items Map.empty) = post_key ` set items"
proof -
  have "vk_get_views w ps = vk_collect (build_post_views items Map.empty) ps (0, [])"
    using assms by (cases ps) (simp_all add: vk_get_views_def vk_request_def)
  then show ?thesis
    by (simp add: vk_collect_eq dom_build_post_views comp_def)
qed

theorem vk_success_one_result_per_post_witness:
  "truthy (vk_token_after_setup
      \<lparr>self_api_token = None, config_vk_token = None, typed_token = ''token'',
       vk_reply = Http_reply 200
         (Items [\<lparr>owner_id = Some (- 1), item_id = Some 2, views_count = Some 100\<rparr>])\<rparr>)
   \<and> \<not> raises_for_status 200
   \<and> vk_get_views
       \<lparr>self_api_token = None, config_vk_token = None, typed_token = ''token'',
        vk_reply = Http_reply 200
          (Items [\<lparr>owner_id = Some (- 1), item_id = Some 2, views_count = Some 100\<rparr>])\<rparr>
       [\<lparr>original_link = ''vk.com/wall-1_2'', post_id = ''-1_2''\<rparr>,
        \<lparr>original_link = ''wall-3_4'', post_id = ''-3_4''\<rparr>]
     = (100, [\<lparr>link = ''vk.com/wall-1_2'', views = 100\<rparr>, \<lparr>link = ''wall-3_4'', views = 0\<rparr>])"
proof -
  let ?items = "[\<lparr>owner_id = Some (- 1), item_id = Some 2, views_count = Some 100\<rparr>]"
  let ?w = "\<lparr>self_api_token = None, config_vk_token = None, typed_token = ''token'',
       vk_reply = Http_reply 200 (Items ?items)\<rparr>"
  let ?ps = "[\<lparr>original_link = ''vk.com/wall-1_2'', post_id = ''-1_2''\<rparr>,
        \<lparr>original_link = ''wall-3_4'', post_id = ''-3_4''\<rparr>]"
  have h1: "truthy (vk_token_after_setup ?w)" by code_simp
  have h2: "vk_reply ?w = Http_reply 200 (Items ?items)" by simp
  have h3: "\<not> raises_for_status 200" by (simp add: raises_for_status_def)
  have e1: "build_post_views ?items Map.empty ''-1_2'' = Some 100" by code_simp
  have e2: "build_post_views ?items Map.empty ''-3_4'' = None" by code_simp
  from vk_success_one_result_per_post [OF h1 h2 h3, of ?ps] e1 e2
  have "snd (vk_get_views ?w ?ps) =
          [\<lparr>link = ''vk.com/wall-1_2'', views = 100\<rparr>, \<lparr>link = ''wall-3_4'', views = 0\<rparr>]"
    and "fst (vk_get_views ?w ?ps) = 100"
    by simp_all
  then have "vk_get_views ?w ?ps =
      (100, [\<lparr>link = ''vk.com/wall-1_2'', views = 100\<rparr>, \<lparr>link = ''wall-3_4'', views = 0\<rparr>])"
    by (simp add: prod_eq_iff)
  with h1 h3 show ?thesis by simp
qed

text \<open>
  C7, as stated, fails: the only check of the status is \<open>raise_for_status\<close>, which does
  not raise below 400. A reply with the status 301 and a body with items is handled as a
  success, and its results are returned.
\<close>

theorem vk_status_301_counterexample:
  "\<not> raises_for_status 301
   \<and> vk_get_views
     \<lparr>self_api_token = None, config_vk_token = None, typed_token = ''token'',
      vk_reply = Http_reply 301
        (Items [\<lparr>owner_id = Some (- 1), item_id = Some 2, views_count = Some 100\<rparr>])\<rparr>
     [\<lparr>original_link = ''wall-1_2'', post_id = ''-1_2''\<rparr>]
     = (100, [\<lparr>link = ''wall-1_2'', views = 100\<rparr>])"
  by code_simp

text \<open>
  C7, amended. When the request fails in the transport, or the reply has a status on
  which \<open>raise_for_status\<close> raises, that is a status from 400 to 599, or its body is an
  object with the key \<open>error\<close>, \<open>get_views\<close> returns \<open>(0, [])\<close>, whatever the posts are.
\<close>

theorem vk_failure_returns_nothing:
  assumes "vk_reply w = Transport_failure
     \<or> (\<exists>status body. vk_reply w = Http_reply status body
            \<and> (raises_for_status status \<or> body = Api_error))"
  shows "vk_get_views w ps = (0, [])"
  using assms by (auto simp: vk_get_views_def vk_request_def)

theorem vk_failure_returns_nothing_witness:
  "vk_get_views
     \<lparr>self_api_token = None, config_vk_token = None, typed_token = ''token'',
      vk_reply = Transport_failure\<rparr>
     [\<lparr>original_link = ''wall-1_2'', post_id = ''-1_2''\<rparr>] = (0, [])
   \<and> raises_for_status 500
   \<and> vk_get_views
     \<lparr>self_api_token = None, config_vk_token = None, typed_token = ''token'',
      vk_reply = Http_reply 500
        (Items [\<lparr>owner_id = Some (- 1), item_id = Some 2, views_count = Some 100\<rparr>])\<rparr>
     [\<lparr>original_link = ''wall-1_2'', post_id = ''-1_2''\<rparr>] = (0, [])
   \<and> vk_get_views
     \<lparr>self_api_token = None, config_vk_token = None, typed_token = ''token'',
      vk_reply = Http_reply 200 Api_error\<rparr>
     [\<lparr>original_link = ''wall-1_2'', post_id = ''-1_2''\<rparr>] = (0, [])"
proof -
  have r: "raises_for_status 500" by (simp add: raises_for_status_def)
  show ?thesis
    using r
      vk_failure_returns_nothing [of "\<lparr>self_api_token = None, config_vk_token = None,
        typed_token = ''token'', vk_reply = Transport_failure\<rparr>"
        "[\<lparr>original_link = ''wall-1_2'', post_id = ''-1_2''\<rparr>]"]
      vk_failure_returns_nothing [of "\<lparr>self_api_token = None, config_vk_token = None,
        typed_token = ''token'', vk_reply = Http_reply 500
        (Items [\<lparr>owner_id = Some (- 1), item_id = Some 2, views_count = Some 100\<rparr>])\<rparr>"
        "[\<lparr>original_link = ''wall-1_2'', post_id = ''-1_2''\<rparr>]"]
      vk_failure_returns_nothing [of "\<lparr>self_api_token = None, config_vk_token = None,
        typed_token = ''token'', vk_reply = Http_reply 200 Api_error\<rparr>"
        "[\<lparr>original_link = ''wall-1_2'', post_id = ''-1_2''\<rparr>]"]
    by simp
qed

section \<open>The Telegram fetcher\<close>

lemma tg_step_flood:
  "get i = Flood_wait secs \<Longrightarrow>
     tg_step get i p st = st\<lparr>slept := slept st @ [of_nat secs, 1 / 2]\<rparr>"
  by (simp add: tg_step_def sleep_def)

lemma tg_step_other:
  "get i = Other_error \<Longrightarrow>
     tg_step get i p st =
       st\<lparr>telegram_views_data :=
             telegram_views_data st @ [\<lparr>link = original_link p, views = 0\<rparr>],
          slept := slept st @ [1 / 2]\<rparr>"
  by (simp add: tg_step_def sleep_def)

lemma tg_loop_data:
  "telegram_views_data (tg_loop get i ps st) =
     telegram_views_data st @
     concat (map (\<lambda>(k, q). case get k of
                    Message v \<Rightarrow>
                      [\<lparr>link = original_link q, views = (case v of None \<Rightarrow> 0 | Some n \<Rightarrow> n)\<rparr>]
                  | Flood_wait s \<Rightarrow> []
                  | Other_error \<Rightarrow> [\<lparr>link = original_link q, views = 0\<rparr>])
            (enumerate i ps))"
  by (induction ps arbitrary: i st)
     (simp_all add: tg_step_def sleep_def Let_def split: tg_outcome.splits)

lemma tg_loop_total:
  "total_views (tg_loop get i ps st) =
     total_views st +
     sum_list (map (\<lambda>(k, q). case get k of
                      Message v \<Rightarrow> (case v of None \<Rightarrow> 0 | Some n \<Rightarrow> n)
                    | Flood_wait s \<Rightarrow> 0
                    | Other_error \<Rightarrow> 0)
              (enumerate i ps))"
  by (induction ps arbitrary: i st)
     (simp_all add: tg_step_def sleep_def Let_def split: tg_outcome.splits)

lemma tg_example:
  assumes "all_creds (tg_creds_after_setup w)" and "connect_ok w"
    and "get_messages w 1 = Message (Some 10)"
    and "get_messages w 2 = Flood_wait 5"
    and "get_messages w 3 = Message (Some 20)"
  shows "tg_run w [p1, p2, p3] =
     \<lparr>total_views = 30,
      telegram_views_data =
        [\<lparr>link = original_link p1, views = 10\<rparr>, \<lparr>link = original_link p3, views = 20\<rparr>],
      slept = [1 / 2, 5, 1 / 2, 1 / 2]\<rparr>"
proof -
  have two: "Suc (Suc 0) = 2" and three: "Suc 2 = 3" by simp_all
  show ?thesis
    using assms by (simp add: tg_run_def tg_step_def sleep_def Let_def two three)
qed

text \<open>
  C2. For a post that meets the rate limit, the step of the loop waits the seconds of
  the signal, then the half second that follows every post, and changes neither the
  results nor the total; the loop goes on with the next post and does not ask for this
  one again. For a post that fails otherwise, the step appends a result with 0 views for
  its link. So the results of a batch are those of its posts that are not rate limited,
  in order, and the total is the sum of the views of the messages. When the first and
  third of three posts succeed with 10 and 20 views and the second is rate limited for 5
  seconds, the fetcher returns the total 30 with the results of the first and the third
  post, after waits of 0.5, 5, 0.5 and 0.5 seconds.
\<close>

theorem telegram_rate_limited_post_is_skipped:
  "(get i = Flood_wait secs \<longrightarrow>
      tg_step get i p st = st\<lparr>slept := slept st @ [of_nat secs, 1 / 2]\<rparr>)
   \<and> (get i = Other_error \<longrightarrow>
      tg_step get i p st =
        st\<lparr>telegram_views_data :=
              telegram_views_data st @ [\<lparr>link = original_link p, views = 0\<rparr>],
           slept := slept st @ [1 / 2]\<rparr>)
   \<and> telegram_views_data (tg_loop get i ps st) =
       telegram_views_data st @
       concat (map (\<lambda>(k, q). case get k of
                      Message v \<Rightarrow>
                        [\<lparr>link = original_link q,
                          views = (case v of None \<Rightarrow> 0 | Some n \<Rightarrow> n)\<rparr>]
                    | Flood_wait s \<Rightarrow> []
                    | Other_error \<Rightarrow> [\<lparr>link = original_link q, views = 0\<rparr>])
              (enumerate i ps))
   \<and> total_views (tg_loop get i ps st) =
       total_views st +
       sum_list (map (\<lambda>(k, q). case get k of
                        Message v \<Rightarrow> (case v of None \<Rightarrow> 0 | Some n \<Rightarrow> n)
                      | Flood_wait s \<Rightarrow> 0
                      | Other_error \<Rightarrow> 0)
                (enumerate i ps))
   \<and> (all_creds (tg_creds_after_setup w) \<and> connect_ok w
        \<and> get_messages w 1 = Message (Some 10)
        \<and> get_messages w 2 = Flood_wait 5
        \<and> get_messages w 3 = Message (Some 20) \<longrightarrow>
      telegram_get_views w [p1, p2, p3] =
        (30, [\<lparr>link = original_link p1, views = 10\<rparr>, \<lparr>link = original_link p3, views = 20\<rparr>])
      \<and> slept (tg_run w [p1, p2, p3]) = [1 / 2, 5, 1 / 2, 1 / 2])"
proof -
  have e: "all_creds (tg_creds_after_setup w) \<and> connect_ok w
        \<and> get_messages w 1 = Message (Some 10)
        \<and> get_messages w 2 = Flood_wait 5
        \<and> get_messages w 3 = Message (Some 20) \<longrightarrow>
      telegram_get_views w [p1, p2, p3] =
        (30, [\<lparr>link = original_link p1, views = 10\<rparr>, \<lparr>link = original_link p3, views = 20\<rparr>])
      \<and> slept (tg_run w [p1, p2, p3]) = [1 / 2, 5, 1 / 2, 1 / 2]"
  proof
    assume a: "all_creds (tg_creds_after_setup w) \<and> connect_ok w
        \<and> get_messages w 1 = Message (Some 10)
        \<and> get_messages w 2 = Flood_wait 5
        \<and> get_messages w 3 = Message (Some 20)"
    then have "tg_run w [p1, p2, p3] =
       \<lparr>total_views = 30,
        telegram_views_data =
          [\<lparr>link = original_link p1, views = 10\<rparr>, \<lparr>link = original_link p3, views = 20\<rparr>],
        slept = [1 / 2, 5, 1 / 2, 1 / 2]\<rparr>"
      using tg_example [of w p1 p2 p3] by blast
    then show "telegram_get_views w [p1, p2, p3] =
        (30, [\<lparr>link = original_link p1, views = 10\<rparr>, \<lparr>link = original_link p3, views = 20\<rparr>])
      \<and> slept (tg_run w [p1, p2, p3]) = [1 / 2, 5, 1 / 2, 1 / 2]"
      by (simp add: telegram_get_views_def)
  qed
  from tg_step_flood [of get i secs p st] tg_step_other [of get i p st]
    tg_loop_data [of get i ps st] tg_loop_total [of get i ps st] e
  show ?thesis by blast
qed

theorem telegram_rate_limited_post_is_skipped_witness:
  "all_creds (tg_creds_after_setup
     \<lparr>self_creds = \<lparr>api_id = None, api_hash = None, phone = None\<rparr>,
      config_creds = \<lparr>api_id = None, api_hash = None, phone = None\<rparr>,
      typed_api_id = ''12345'', typed_api_hash = ''abcdef'', typed_phone = ''+79123456789'',
      connect_ok = True,
      get_messages = (\<lambda>i. if i = 1 then Message (Some 10) else if i = 2 then Flood_wait 5
                          else if i = 3 then Message (Some 20) else Other_error)\<rparr>)
   \<and> telegram_get_views
     \<lparr>self_creds = \<lparr>api_id = None, api_hash = None, phone = None\<rparr>,
      config_creds = \<lparr>api_id = None, api_hash = None, phone = None\<rparr>,
      typed_api_id = ''12345'', typed_api_hash = ''abcdef'', typed_phone = ''+79123456789'',
      connect_ok = True,
      get_messages = (\<lambda>i. if i = 1 then Message (Some 10) else if i = 2 then Flood_wait 5
                          else if i = 3 then Message (Some 20) else Other_error)\<rparr>
     [\<lparr>original_link = ''t.me/a/1'', channel = ''a'', message_id = 1\<rparr>,
      \<lparr>original_link = ''t.me/b/2'', channel = ''b'', message_id = 2\<rparr>,
      \<lparr>original_link = ''t.me/c/3'', channel = ''c'', message_id = 3\<rparr>]
     = (30, [\<lparr>link = ''t.me/a/1'', views = 10\<rparr>, \<lparr>link = ''t.me/c/3'', views = 20\<rparr>])
   \<and> slept (tg_run
     \<lparr>self_creds = \<lparr>api_id = None, api_hash = None, phone = None\<rparr>,
      config_creds = \<lparr>api_id = None, api_hash = None, phone = None\<rparr>,
      typed_api_id = ''12345'', typed_api_hash = ''abcdef'', typed_phone = ''+79123456789'',
      connect_ok = True,
      get_messages = (\<lambda>i. if i = 1 then Message (Some 10) else if i = 2 then Flood_wait 5
                          else if i = 3 then Message (Some 20) else Other_error)\<rparr>
     [\<lparr>original_link = ''t.me/a/1'', channel = ''a'', message_id = 1\<rparr>,
      \<lparr>original_link = ''t.me/b/2'', channel = ''b'', message_id = 2\<rparr>,
      \<lparr>original_link = ''t.me/c/3'', channel = ''c'', message_id = 3\<rparr>])
     = [1 / 2, 5, 1 / 2, 1 / 2]
   \<and> tg_step (\<lambda>i. if i = 1 then Message (Some 10) else if i = 2 then Flood_wait 5
                    else if i = 3 then Message (Some 20) else Other_error) 2
        \<lparr>original_link = ''t.me/b/2'', channel = ''b'', message_id = 2\<rparr>
        \<lparr>total_views = 0, telegram_views_data = [], slept = []\<rparr>
     = \<lparr>total_views = 0, telegram_views_data = [], slept = [5, 1 / 2]\<rparr>
   \<and> tg_step (\<lambda>i. if i = 1 then Message (Some 10) else if i = 2 then Flood_wait 5
                    else if i = 3 then Message (Some 20) else Other_error) 4
        \<lparr>original_link = ''t.me/a/1'', channel = ''a'', message_id = 1\<rparr>
        \<lparr>total_views = 0, telegram_views_data = [], slept = []\<rparr>
     = \<lparr>total_views = 0, telegram_views_data = [\<lparr>link = ''t.me/a/1'', views = 0\<rparr>],
        slept = [1 / 2]\<rparr>"
proof -
  let ?get = "\<lambda>i::nat. if i = 1 then Message (Some 10) else if i = 2 then Flood_wait 5
                    else if i = 3 then Message (Some 20) else Other_error"
  let ?w = "\<lparr>self_creds = \<lparr>api_id = None, api_hash = None, phone = None\<rparr>,
      config_creds = \<lparr>api_id = None, api_hash = None, phone = None\<rparr>,
      typed_api_id = ''12345'', typed_api_hash = ''abcdef'', typed_phone = ''+79123456789'',
      connect_ok = True,
      get_messages = (\<lambda>i. if i = 1 then Message (Some 10) else if i = 2 then Flood_wait 5
                          else if i = 3 then Message (Some 20) else Other_error)\<rparr>"
  let ?p1 = "\<lparr>original_link = ''t.me/a/1'', channel = ''a'', message_id = 1\<rparr>"
  let ?p2 = "\<lparr>original_link = ''t.me/b/2'', channel = ''b'', message_id = 2\<rparr>"
  let ?p3 = "\<lparr>original_link = ''t.me/c/3'', channel = ''c'', message_id = 3\<rparr>"
  let ?s = "\<lparr>total_views = 0, telegram_views_data = [], slept = []\<rparr>"
  have c: "all_creds (tg_creds_after_setup ?w)" by code_simp
  have h: "all_creds (tg_creds_after_setup ?w) \<and> connect_ok ?w
        \<and> get_messages ?w 1 = Message (Some 10)
        \<and> get_messages ?w 2 = Flood_wait 5
        \<and> get_messages ?w 3 = Message (Some 20)"
    using c by simp
  have f: "?get 2 = Flood_wait 5" by simp
  have g: "?get 4 = Other_error" by simp
  from telegram_rate_limited_post_is_skipped
         [where get = ?get and i = 2 and secs = 5 and p = ?p2 and st = ?s and w = ?w
            and ?p1.0 = ?p1 and ?p2.0 = ?p2 and ?p3.0 = ?p3] h f
  have a: "telegram_get_views ?w [?p1, ?p2, ?p3] =
        (30, [\<lparr>link = ''t.me/a/1'', views = 10\<rparr>, \<lparr>link = ''t.me/c/3'', views = 20\<rparr>])"
    and b: "slept (tg_run ?w [?p1, ?p2, ?p3]) = [1 / 2, 5, 1 / 2, 1 / 2]"
    and d: "tg_step ?get 2 ?p2 ?s = \<lparr>total_views = 0, telegram_views_data = [], slept = [5, 1 / 2]\<rparr>"
    by simp_all
  from telegram_rate_limited_post_is_skipped
         [where get = ?get and i = 4 and p = ?p1 and st = ?s] g
  have e: "tg_step ?get 4 ?p1 ?s =
      \<lparr>total_views = 0, telegram_views_data = [\<lparr>link = ''t.me/a/1'', views = 0\<rparr>],
        slept = [1 / 2]\<rparr>"
    by simp
  from c a b d e show ?thesis by blast
qed

section \<open>Totals and results\<close>

lemma tg_loop_sum:
  "total_views st = sum_list (map views (telegram_views_data st)) \<Longrightarrow>
   total_views (tg_loop get i ps st) = sum_list (map views (telegram_views_data (tg_loop get i ps st)))"
  by (induction ps arbitrary: i st)
     (simp_all add: tg_step_def sleep_def Let_def split: tg_outcome.splits)

lemma ok_loop_sum:
  "ok_total_views st = sum_list (map views (ok_views_data st)) \<Longrightarrow>
   ok_total_views (ok_loop get i ps st) = sum_list (map views (ok_views_data (ok_loop get i ps st)))"
  by (induction ps arbitrary: i st) (simp_all add: ok_step_def Let_def)

text \<open>
  C10. Whatever the services do, the total that the Telegram fetcher returns is the sum
  of the views of the results that it returns, and so is the total of the OK fetcher.
\<close>

theorem totals_are_sums_of_results:
  "fst (telegram_get_views w tps) = sum_list (map views (snd (telegram_get_views w tps)))
   \<and> fst (ok_get_views get ops) = sum_list (map views (snd (ok_get_views get ops)))"
proof -
  have a: "total_views (tg_run w tps) = sum_list (map views (telegram_views_data (tg_run w tps)))"
    by (simp add: tg_run_def Let_def tg_loop_sum)
  have b: "ok_total_views (ok_run get ops) = sum_list (map views (ok_views_data (ok_run get ops)))"
    by (simp add: ok_run_def Let_def ok_loop_sum)
  from a b show ?thesis by (simp add: telegram_get_views_def ok_get_views_def Let_def)
qed

section \<open>The views of an OK.ru page\<close>








section \<open>The report of a run\<close>











end
